theory Spec2Isabelle
  imports Complex_Main "HOL-Library.Extended_Nat"
begin

section \<open>JavaScript values\<close>

text \<open>
  The functions of \<^verbatim>\<open>src/exp-smoothing.ts\<close> and \<^verbatim>\<open>src/errors.ts\<close> compute on
  JavaScript numbers. A value is \<^verbatim>\<open>undefined\<close> (what an array read outside the array
  gives, and the value of a variable declared without an initialiser), \<^verbatim>\<open>NaN\<close>,
  one of the two infinities, or a finite number. Finite arithmetic is the arithmetic of
  the reals: rounding, overflow to infinity and the sign of zero are not
  represented (a zero divisor is taken as \<^verbatim>\<open>+0\<close>). The special values follow IEEE 754
  as JavaScript applies it; an arithmetic operand that is \<^verbatim>\<open>undefined\<close> converts to
  \<^verbatim>\<open>NaN\<close>.
\<close>

datatype jsval = Undefined | NaN | NInf | Num real | PInf

text \<open>\<^verbatim>\<open>isNaN(v)\<close>: true for \<^verbatim>\<open>NaN\<close> and, after conversion, for \<^verbatim>\<open>undefined\<close>.\<close>

fun isNaN :: "jsval \<Rightarrow> bool" where
  "isNaN Undefined = True"
| "isNaN NaN = True"
| "isNaN _ = False"

text \<open>The infinity with the sign of \<open>x\<close>; \<^verbatim>\<open>NaN\<close> for zero (\<^verbatim>\<open>0 * Infinity\<close>, \<^verbatim>\<open>0 / 0\<close>).\<close>

definition inf_of_sign :: "real \<Rightarrow> jsval" where
  "inf_of_sign x = (if 0 < x then PInf else if x < 0 then NInf else NaN)"

fun jneg :: "jsval \<Rightarrow> jsval" where
  "jneg (Num x) = Num (- x)"
| "jneg PInf = NInf"
| "jneg NInf = PInf"
| "jneg _ = NaN"

fun jadd :: "jsval \<Rightarrow> jsval \<Rightarrow> jsval" where
  "jadd (Num x) (Num y) = Num (x + y)"
| "jadd (Num x) PInf = PInf"
| "jadd (Num x) NInf = NInf"
| "jadd PInf (Num y) = PInf"
| "jadd NInf (Num y) = NInf"
| "jadd PInf PInf = PInf"
| "jadd NInf NInf = NInf"
| "jadd _ _ = NaN"

text \<open>\<^verbatim>\<open>a - b\<close> is \<^verbatim>\<open>a + (-b)\<close>.\<close>

definition jsub :: "jsval \<Rightarrow> jsval \<Rightarrow> jsval" where
  "jsub a b = jadd a (jneg b)"

fun jmul :: "jsval \<Rightarrow> jsval \<Rightarrow> jsval" where
  "jmul (Num x) (Num y) = Num (x * y)"
| "jmul (Num x) PInf = inf_of_sign x"
| "jmul (Num x) NInf = inf_of_sign (- x)"
| "jmul PInf (Num y) = inf_of_sign y"
| "jmul NInf (Num y) = inf_of_sign (- y)"
| "jmul PInf PInf = PInf"
| "jmul NInf NInf = PInf"
| "jmul PInf NInf = NInf"
| "jmul NInf PInf = NInf"
| "jmul _ _ = NaN"

fun jdiv :: "jsval \<Rightarrow> jsval \<Rightarrow> jsval" where
  "jdiv (Num x) (Num y) = (if y = 0 then inf_of_sign x else Num (x / y))"
| "jdiv (Num x) PInf = Num 0"
| "jdiv (Num x) NInf = Num 0"
| "jdiv PInf (Num y) = (if y < 0 then NInf else PInf)"
| "jdiv NInf (Num y) = (if y < 0 then PInf else NInf)"
| "jdiv _ _ = NaN"

text \<open>Comparisons: false as soon as one side is \<^verbatim>\<open>NaN\<close> (or \<^verbatim>\<open>undefined\<close>).\<close>

fun jlt :: "jsval \<Rightarrow> jsval \<Rightarrow> bool" where
  "jlt (Num x) (Num y) = (x < y)"
| "jlt NInf (Num y) = True"
| "jlt NInf PInf = True"
| "jlt (Num x) PInf = True"
| "jlt _ _ = False"

fun jle :: "jsval \<Rightarrow> jsval \<Rightarrow> bool" where
  "jle (Num x) (Num y) = (x \<le> y)"
| "jle NInf (Num y) = True"
| "jle NInf PInf = True"
| "jle NInf NInf = True"
| "jle (Num x) PInf = True"
| "jle PInf PInf = True"
| "jle _ _ = False"

definition jgt :: "jsval \<Rightarrow> jsval \<Rightarrow> bool" where
  "jgt a b = jlt b a"

definition jge :: "jsval \<Rightarrow> jsval \<Rightarrow> bool" where
  "jge a b = jle b a"

section \<open>Arrays\<close>

text \<open>
  An array is the list of its elements. A read outside the array gives
  \<^verbatim>\<open>undefined\<close>; a write at or beyond the length extends the array, the holes reading
  as \<^verbatim>\<open>undefined\<close>; \<^verbatim>\<open>push\<close> appends. An absent array (\<^verbatim>\<open>null\<close> or
  \<^verbatim>\<open>undefined\<close>) is \<open>None\<close>.
\<close>

type_synonym jsarray = "jsval list"

definition aget :: "jsarray \<Rightarrow> nat \<Rightarrow> jsval" where
  "aget xs i = (if i < length xs then xs ! i else Undefined)"

definition aset :: "jsarray \<Rightarrow> nat \<Rightarrow> jsval \<Rightarrow> jsarray" where
  "aset xs i v =
     (if i < length xs then xs[i := v]
      else xs @ replicate (i - length xs) Undefined @ [v])"

definition push :: "jsarray \<Rightarrow> jsval \<Rightarrow> jsarray" where
  "push xs v = xs @ [v]"

section \<open>Loops\<close>

text \<open>
  \<^verbatim>\<open>for (i = a; i < b; ++i) body\<close> with a finite bound \<open>b\<close>: the body maps the index and
  the variables it updates to their new values.
\<close>

function for_loop :: "nat \<Rightarrow> nat \<Rightarrow> (nat \<Rightarrow> 'a \<Rightarrow> 'a) \<Rightarrow> 'a \<Rightarrow> 'a" where
  "for_loop i b body s = (if i < b then for_loop (Suc i) b body (body i s) else s)"
  by pat_completeness auto
termination
  by (relation "measure (\<lambda>(i, b, body, s). b - i)") auto

declare for_loop.simps [simp del]

text \<open>
  The same loop with a bound that may be \<^verbatim>\<open>Infinity\<close>: then the test never fails and
  the loop does not exit, so that the function returns no value, which is \<open>None\<close>.
\<close>

partial_function (option) for_loop_ext :: "nat \<Rightarrow> enat \<Rightarrow> (nat \<Rightarrow> 'a \<Rightarrow> 'a) \<Rightarrow> 'a \<Rightarrow> 'a option" where
  "for_loop_ext i b body s =
     (if enat i < b then for_loop_ext (Suc i) b body (body i s) else Some s)"

declare for_loop_ext.simps [code]

section \<open>Single exponential smoothing\<close>

text \<open>
  \<^verbatim>\<open>expSmooth\<close>, lines 30 to 52. The guards are those of the source, in its order: an
  absent array, a length of exactly one, a parameter that is not strictly inside (0,1).
\<close>

definition expSmooth_body :: "jsarray \<Rightarrow> jsval \<Rightarrow> nat \<Rightarrow> jsarray \<Rightarrow> jsarray" where
  "expSmooth_body data alpha i smoothed =
     aset smoothed i
       (jadd (jmul alpha (aget data (i - 1)))
             (jmul (jsub (Num 1) alpha) (aget smoothed (i - 1))))"

definition expSmooth :: "jsarray option \<Rightarrow> jsval \<Rightarrow> jsarray" where
  "expSmooth data alpha =
     (case data of
        None \<Rightarrow> []
      | Some d \<Rightarrow>
          if length d = 1 then []
          else if isNaN alpha \<or> jle alpha (Num 0) \<or> jge alpha (Num 1) then []
          else
            let n = length d;
                smoothed = aset [] 0 (Num 0);
                smoothed = aset smoothed 1 (aget d 0)
            in for_loop 2 n (expSmooth_body d alpha) smoothed)"

section \<open>Double exponential smoothing\<close>

text \<open>
  \<^verbatim>\<open>doubleExpSmooth\<close>, lines 69 to 95. The loop updates the two arrays
  \<^verbatim>\<open>smoothed\<close> and \<^verbatim>\<open>b\<close>; the parameters are accepted on the closed interval.
\<close>

definition doubleExpSmooth_body ::
  "jsarray \<Rightarrow> jsval \<Rightarrow> jsval \<Rightarrow> nat \<Rightarrow> jsarray \<times> jsarray \<Rightarrow> jsarray \<times> jsarray" where
  "doubleExpSmooth_body data alpha gamma i st =
     (let smoothed = fst st; b = snd st;
          smoothed = aset smoothed i
            (jadd (jmul alpha (aget data i))
                  (jmul (jsub (Num 1) alpha) (jadd (aget smoothed (i - 1)) (aget b (i - 1)))));
          b = aset b i
            (jadd (jmul gamma (jsub (aget smoothed i) (aget smoothed (i - 1))))
                  (jmul (jsub (Num 1) gamma) (aget b (i - 1))))
      in (smoothed, b))"

definition doubleExpSmooth :: "jsarray option \<Rightarrow> jsval \<Rightarrow> jsval \<Rightarrow> jsarray" where
  "doubleExpSmooth data alpha gamma =
     (case data of
        None \<Rightarrow> []
      | Some d \<Rightarrow>
          if length d < 2 then []
          else if isNaN alpha \<or> jlt alpha (Num 0) \<or> jgt alpha (Num 1) then []
          else if isNaN gamma \<or> jlt gamma (Num 0) \<or> jgt gamma (Num 1) then []
          else
            let n = length d;
                smoothed = aset [] 0 (Num 0);
                b = aset [] 0 (Num 0);
                smoothed = aset smoothed 1 (aget d 0);
                b = aset b 1 (jsub (aget d 1) (aget d 0))
            in fst (for_loop 2 n (doubleExpSmooth_body d alpha gamma) (smoothed, b)))"

section \<open>Error metrics\<close>

text \<open>\<^verbatim>\<open>sumSqError\<close> and \<^verbatim>\<open>mse\<close> of \<^verbatim>\<open>src/errors.ts\<close>.\<close>

definition sumSqError :: "jsarray option \<Rightarrow> jsarray option \<Rightarrow> jsval" where
  "sumSqError predictions actual =
     (case predictions of
        None \<Rightarrow> Num (- 1)
      | Some p \<Rightarrow>
          if length p = 0 then Num (- 1)
          else
            (case actual of
               None \<Rightarrow> Num (- 1)
             | Some a \<Rightarrow>
                 if length a = 0 then Num (- 1)
                 else if length p \<noteq> length a then Num (- 1)
                 else
                   for_loop 0 (length p)
                     (\<lambda>i sum. let error = jsub (aget p i) (aget a i)
                               in jadd sum (jmul error error))
                     (Num 0)))"

definition mse :: "jsarray option \<Rightarrow> jsarray option \<Rightarrow> jsval" where
  "mse predictions actual =
     (case predictions of
        None \<Rightarrow> Num (- 1)
      | Some p \<Rightarrow>
          if length p = 0 then Num (- 1)
          else
            (case actual of
               None \<Rightarrow> Num (- 1)
             | Some a \<Rightarrow>
                 if length a = 0 then Num (- 1)
                 else if length p \<noteq> length a then Num (- 1)
                 else jdiv (sumSqError predictions actual) (Num (real (length p)))))"

section \<open>Holt-Winters\<close>

text \<open>
  \<^verbatim>\<open>seasonLength\<close> is a length, a natural number here. \<^verbatim>\<open>numPredictions\<close> is
  an integer of either sign, since no guard looks at it: the test
  \<^verbatim>\<open>i < n + numPredictions\<close> of the main loop, on an index \<open>i\<close> that starts at 0, lets
  \<open>nat (n + numPredictions)\<close> passes through, none when the sum is not positive. Values
  that are not integers are not represented. \<^verbatim>\<open>holtWinters\<close> (lines 113 to 204) and \<^verbatim>\<open>holtWintersPartitioned\<close>
  (lines 212 to 304) repeat the same statements up to the main loop, so the two
  initial phases are written once.

  Initial trend, lines 133 to 140.
\<close>

definition initial_trend :: "jsarray \<Rightarrow> nat \<Rightarrow> jsval" where
  "initial_trend data seasonLength =
     (let sum = for_loop 0 seasonLength
                  (\<lambda>i sum. jadd sum (jdiv (jsub (aget data (i + seasonLength)) (aget data i))
                                           (Num (real seasonLength))))
                  (Num 0)
      in jdiv sum (Num (real seasonLength)))"

text \<open>
  \<^verbatim>\<open>Math.floor(n/seasonLength)\<close>, line 145, where \<open>n\<close> is at least 3: the quotient by
  zero is \<^verbatim>\<open>Infinity\<close>, and so is its floor.
\<close>

definition num_seasons :: "nat \<Rightarrow> nat \<Rightarrow> enat" where
  "num_seasons n seasonLength = (if seasonLength = 0 then \<infinity> else enat (n div seasonLength))"

text \<open>Seasonal averages, lines 148 to 157. The bound of the loop is \<^verbatim>\<open>numSeasons\<close>.\<close>

definition season_average :: "jsarray \<Rightarrow> nat \<Rightarrow> nat \<Rightarrow> jsval" where
  "season_average data seasonLength j =
     (let sum = for_loop (seasonLength * j) (seasonLength * j + seasonLength)
                  (\<lambda>i sum. jadd sum (aget data i)) (Num 0)
      in jdiv sum (Num (real seasonLength)))"

definition seasonal_averages :: "jsarray \<Rightarrow> nat \<Rightarrow> enat \<Rightarrow> jsarray option" where
  "seasonal_averages data seasonLength numSeasons =
     for_loop_ext 0 numSeasons
       (\<lambda>j seasonAverages. push seasonAverages (season_average data seasonLength j)) []"

text \<open>Initial seasonal indices, lines 160 to 168, reached with a finite \<^verbatim>\<open>numSeasons\<close>.\<close>

definition initial_seasonals :: "jsarray \<Rightarrow> nat \<Rightarrow> nat \<Rightarrow> jsarray \<Rightarrow> jsarray" where
  "initial_seasonals data seasonLength numSeasons seasonAverages =
     for_loop 0 seasonLength
       (\<lambda>i seasonals.
          let sum = for_loop 0 numSeasons
                      (\<lambda>j sum. jadd sum (jsub (aget data (seasonLength * j + i))
                                               (aget seasonAverages j)))
                      (Num 0)
          in aset seasonals i (jdiv sum (Num (real numSeasons))))
       []"

text \<open>
  The variables of the main loop. \<^verbatim>\<open>smooth\<close> is declared without a value (line 173).
\<close>

record hw_vars =
  smooth :: jsval
  trend :: jsval
  seasonals :: jsarray

text \<open>
  Both initial phases. The result is \<open>None\<close> when the loop of line 149 does not
  exit (it pushes onto \<^verbatim>\<open>seasonAverages\<close> until the engine raises
  \<^verbatim>\<open>RangeError: Invalid array length\<close>), so that the call returns no value; the branch for an infinite \<^verbatim>\<open>numSeasons\<close> after that loop is never reached.
\<close>

definition hw_init :: "jsarray \<Rightarrow> nat \<Rightarrow> hw_vars option" where
  "hw_init data seasonLength =
     (let n = length data;
          trend = initial_trend data seasonLength;
          numSeasons = num_seasons n seasonLength
      in case seasonal_averages data seasonLength numSeasons of
           None \<Rightarrow> None
         | Some seasonAverages \<Rightarrow>
             (case numSeasons of
                enat k \<Rightarrow>
                  Some \<lparr>smooth = Undefined, trend = trend,
                        seasonals = initial_seasonals data seasonLength k seasonAverages\<rparr>
              | \<infinity> \<Rightarrow> None))"

text \<open>
  The in-sample update, lines 191 to 197. In the main loop \<^verbatim>\<open>seasonLength\<close> is
  positive and \<open>i\<close> is not negative, so \<^verbatim>\<open>i % seasonLength\<close> is \<open>i mod seasonLength\<close>.
\<close>

definition hw_update ::
  "jsarray \<Rightarrow> jsval \<Rightarrow> jsval \<Rightarrow> jsval \<Rightarrow> nat \<Rightarrow> nat \<Rightarrow> hw_vars \<Rightarrow> hw_vars" where
  "hw_update data alpha beta gamma seasonLength i v =
     (let lastSmooth = smooth v;
          val = aget data i;
          smooth' = jadd (jmul alpha (jsub val (aget (seasonals v) (i mod seasonLength))))
                         (jmul (jsub (Num 1) alpha) (jadd (smooth v) (trend v)));
          trend' = jadd (jmul beta (jsub smooth' lastSmooth))
                        (jmul (jsub (Num 1) beta) (trend v));
          seasonals' = aset (seasonals v) (i mod seasonLength)
                         (jadd (jmul gamma (jsub val smooth'))
                               (jmul (jsub (Num 1) gamma)
                                     (aget (seasonals v) (i mod seasonLength))))
      in \<lparr>smooth = smooth', trend = trend', seasonals = seasonals'\<rparr>)"

text \<open>The value pushed in sample, line 199.\<close>

definition hw_fitted :: "nat \<Rightarrow> nat \<Rightarrow> hw_vars \<Rightarrow> jsval" where
  "hw_fitted seasonLength i v =
     jadd (jadd (smooth v) (trend v)) (aget (seasonals v) (i mod seasonLength))"

text \<open>The value pushed out of sample, lines 186 and 187.\<close>

definition hw_forecast :: "nat \<Rightarrow> nat \<Rightarrow> nat \<Rightarrow> hw_vars \<Rightarrow> jsval" where
  "hw_forecast n seasonLength i v =
     (let m = i - n + 1
      in jadd (jadd (smooth v) (jmul (Num (real m)) (trend v)))
              (aget (seasonals v) (i mod seasonLength)))"

text \<open>The body of the main loop of \<^verbatim>\<open>holtWinters\<close>, lines 177 to 200.\<close>

definition holtWinters_body ::
  "jsarray \<Rightarrow> jsval \<Rightarrow> jsval \<Rightarrow> jsval \<Rightarrow> nat \<Rightarrow> nat \<Rightarrow> hw_vars \<times> jsarray \<Rightarrow> hw_vars \<times> jsarray" where
  "holtWinters_body data alpha beta gamma seasonLength i st =
     (let v = fst st; predictions = snd st; n = length data in
      if i = 0 then (v\<lparr>smooth := aget data 0\<rparr>, push predictions (aget data 0))
      else if n \<le> i then (v, push predictions (hw_forecast n seasonLength i v))
      else
        let v' = hw_update data alpha beta gamma seasonLength i v
        in (v', push predictions (hw_fitted seasonLength i v')))"

definition holtWinters ::
  "jsarray option \<Rightarrow> jsval \<Rightarrow> jsval \<Rightarrow> jsval \<Rightarrow> nat \<Rightarrow> int \<Rightarrow> jsarray option" where
  "holtWinters data alpha beta gamma seasonLength numPredictions =
     (case data of
        None \<Rightarrow> Some []
      | Some d \<Rightarrow>
          let n = length d in
          if n < 3 then Some []
          else if isNaN alpha \<or> jlt alpha (Num 0) \<or> jgt alpha (Num 1) then Some []
          else if isNaN beta \<or> jlt beta (Num 0) \<or> jgt beta (Num 1) then Some []
          else if isNaN gamma \<or> jlt gamma (Num 0) \<or> jgt gamma (Num 1) then Some []
          else
            (case hw_init d seasonLength of
               None \<Rightarrow> None
             | Some v \<Rightarrow>
                 Some (snd (for_loop 0 (nat (int n + numPredictions))
                              (holtWinters_body d alpha beta gamma seasonLength) (v, [])))))"

text \<open>The result of \<^verbatim>\<open>holtWintersPartitioned\<close> and the constant of line 206.\<close>

record partition =
  smoothed :: jsarray
  predictions :: jsarray

definition EMPTY_PARTITION :: partition where
  "EMPTY_PARTITION = \<lparr>smoothed = [], predictions = []\<rparr>"

text \<open>The body of the main loop of \<^verbatim>\<open>holtWintersPartitioned\<close>, lines 277 to 300.\<close>

definition holtWintersPartitioned_body ::
  "jsarray \<Rightarrow> jsval \<Rightarrow> jsval \<Rightarrow> jsval \<Rightarrow> nat \<Rightarrow> nat \<Rightarrow> hw_vars \<times> partition \<Rightarrow> hw_vars \<times> partition" where
  "holtWintersPartitioned_body data alpha beta gamma seasonLength i st =
     (let v = fst st; p = snd st; n = length data in
      if i = 0 then (v\<lparr>smooth := aget data 0\<rparr>, p\<lparr>smoothed := push (smoothed p) (aget data 0)\<rparr>)
      else if n \<le> i then
        (v, p\<lparr>predictions := push (predictions p) (hw_forecast n seasonLength i v)\<rparr>)
      else
        let v' = hw_update data alpha beta gamma seasonLength i v
        in (v', p\<lparr>smoothed := push (smoothed p) (hw_fitted seasonLength i v')\<rparr>))"

definition holtWintersPartitioned ::
  "jsarray option \<Rightarrow> jsval \<Rightarrow> jsval \<Rightarrow> jsval \<Rightarrow> nat \<Rightarrow> int \<Rightarrow> partition option" where
  "holtWintersPartitioned data alpha beta gamma seasonLength numPredictions =
     (case data of
        None \<Rightarrow> Some EMPTY_PARTITION
      | Some d \<Rightarrow>
          let n = length d in
          if n < 3 then Some EMPTY_PARTITION
          else if isNaN alpha \<or> jlt alpha (Num 0) \<or> jgt alpha (Num 1) then Some EMPTY_PARTITION
          else if isNaN beta \<or> jlt beta (Num 0) \<or> jgt beta (Num 1) then Some EMPTY_PARTITION
          else if isNaN gamma \<or> jlt gamma (Num 0) \<or> jgt gamma (Num 1) then Some EMPTY_PARTITION
          else
            (case hw_init d seasonLength of
               None \<Rightarrow> None
             | Some v \<Rightarrow>
                 Some (snd (for_loop 0 (nat (int n + numPredictions))
                              (holtWintersPartitioned_body d alpha beta gamma seasonLength)
                              (v, \<lparr>smoothed = [], predictions = []\<rparr>)))))"

section \<open>Invariants and specifications\<close>

text \<open>What holds of \<^verbatim>\<open>smoothed\<close> when the loop of \<^verbatim>\<open>expSmooth\<close> reaches index \<open>k\<close>.\<close>

definition expSmooth_inv :: "jsarray \<Rightarrow> jsval \<Rightarrow> nat \<Rightarrow> jsarray \<Rightarrow> bool" where
  "expSmooth_inv d alpha k sm \<longleftrightarrow>
     length sm = k \<and> sm ! 0 = Num 0 \<and> sm ! 1 = d ! 0 \<and>
     (\<forall>j. 2 \<le> j \<and> j < k \<longrightarrow>
        sm ! j = jadd (jmul alpha (d ! (j - 1))) (jmul (jsub (Num 1) alpha) (sm ! (j - 1))))"

text \<open>
  The words of the specification for the error metrics: a pair of sequences is invalid when
  one of them is absent or empty or when the lengths differ; the sum of squared errors is
  the sum over \<open>i\<close> of \<^verbatim>\<open>(predictions[i]-actual[i])^2\<close>.
\<close>

definition invalid_pair :: "jsarray option \<Rightarrow> jsarray option \<Rightarrow> bool" where
  "invalid_pair p a =
     (case (p, a) of
        (Some P, Some A) \<Rightarrow> P = [] \<or> A = [] \<or> length P \<noteq> length A
      | _ \<Rightarrow> True)"

definition sq_error_sum :: "jsarray \<Rightarrow> jsarray \<Rightarrow> jsval" where
  "sq_error_sum P A =
     foldl jadd (Num 0)
       (map (\<lambda>i. jmul (jsub (P ! i) (A ! i)) (jsub (P ! i) (A ! i))) [0..<length P])"

text \<open>The values a sum of squares can take: \<^verbatim>\<open>NaN\<close>, \<^verbatim>\<open>Infinity\<close> or a number that is not negative.\<close>

definition sq_like :: "jsval \<Rightarrow> bool" where
  "sq_like v = (case v of Num r \<Rightarrow> 0 \<le> r | NaN \<Rightarrow> True | PInf \<Rightarrow> True | _ \<Rightarrow> False)"

text \<open>
  The words of the specification for the initial trend:
  \<^verbatim>\<open>(1/seasonLength) * Sum_{i<seasonLength} (data[i+seasonLength] - data[i]) / seasonLength\<close>.
\<close>

definition initial_trend_spec :: "jsarray \<Rightarrow> nat \<Rightarrow> jsval" where
  "initial_trend_spec d s =
     jmul (jdiv (Num 1) (Num (real s)))
       (foldl jadd (Num 0)
          (map (\<lambda>i. jdiv (jsub (d ! (i + s)) (d ! i)) (Num (real s))) [0..<s]))"

text \<open>
  The words of the specification for the rejection of Holt-Winters input: the data are
  absent or shorter than 3, or one of the three parameters is \<^verbatim>\<open>NaN\<close> or lies outside
  [0,1].
\<close>

definition outside_unit :: "jsval \<Rightarrow> bool" where
  "outside_unit x \<longleftrightarrow> isNaN x \<or> jlt x (Num 0) \<or> jgt x (Num 1)"

definition hw_rejected :: "jsarray option \<Rightarrow> jsval \<Rightarrow> jsval \<Rightarrow> jsval \<Rightarrow> bool" where
  "hw_rejected data alpha beta gamma =
     (case data of
        None \<Rightarrow> True
      | Some d \<Rightarrow> length d < 3 \<or> outside_unit alpha \<or> outside_unit beta \<or> outside_unit gamma)"

text \<open>
  The variables \<^verbatim>\<open>smooth\<close>, \<^verbatim>\<open>trend\<close> and \<^verbatim>\<open>seasonals\<close> of \<^verbatim>\<open>holtWinters\<close>
  when its main loop reaches index \<open>k\<close>, after both initial phases.
\<close>

definition hw_vars_after ::
  "jsarray \<Rightarrow> jsval \<Rightarrow> jsval \<Rightarrow> jsval \<Rightarrow> nat \<Rightarrow> nat \<Rightarrow> hw_vars option" where
  "hw_vars_after d alpha beta gamma seasonLength k =
     map_option
       (\<lambda>v. fst (for_loop 0 k (holtWinters_body d alpha beta gamma seasonLength) (v, [])))
       (hw_init d seasonLength)"

text \<open>
  How the main loops of \<^verbatim>\<open>holtWinters\<close> and \<^verbatim>\<open>holtWintersPartitioned\<close> correspond
  at index \<open>k\<close>, for data of length \<open>n\<close>: same variables, the one array is the other two
  joined, and \<^verbatim>\<open>predictions\<close> is filled only from index \<open>n\<close> on.
\<close>

definition hw_sim :: "nat \<Rightarrow> nat \<Rightarrow> hw_vars \<times> jsarray \<Rightarrow> hw_vars \<times> partition \<Rightarrow> bool" where
  "hw_sim n k st st' \<longleftrightarrow>
     fst st' = fst st \<and>
     snd st = smoothed (snd st') @ predictions (snd st') \<and>
     length (smoothed (snd st')) = min k n \<and>
     length (predictions (snd st')) = k - n"

section \<open>Properties of the loops\<close>

lemma for_loop_done: "b \<le> i \<Longrightarrow> for_loop i b body s = s"
  by (simp add: for_loop.simps)

lemma for_loop_step: "i < b \<Longrightarrow> for_loop i b body s = for_loop (Suc i) b body (body i s)"
  by (subst for_loop.simps) simp

lemma for_loop_Suc_end: "i \<le> b \<Longrightarrow> for_loop i (Suc b) body s = body b (for_loop i b body s)"
proof (induction "b - i" arbitrary: i s)
  case 0
  then show ?case by (simp add: for_loop_step for_loop_done)
next
  case (Suc k)
  then have "i < b" by simp
  with Suc show ?case by (simp add: for_loop_step)
qed

lemma for_loop_ext_finite: "for_loop_ext i (enat b) body s = Some (for_loop i b body s)"
proof (induction "b - i" arbitrary: i s)
  case 0
  then show ?case by (subst for_loop_ext.simps) (simp add: for_loop_done)
next
  case (Suc k)
  then have "i < b" by simp
  with Suc show ?case by (subst for_loop_ext.simps) (simp add: for_loop_step)
qed

lemma for_loop_ext_infinite_aux: "for_loop_ext i b body s = Some r \<Longrightarrow> b \<noteq> \<infinity>"
proof (rule for_loop_ext.raw_induct [where P = "\<lambda>i b body s r. b \<noteq> \<infinity>"])
  fix f :: "nat \<Rightarrow> enat \<Rightarrow> (nat \<Rightarrow> 'a \<Rightarrow> 'a) \<Rightarrow> 'a \<Rightarrow> 'a option" and i b body s r
  assume ih: "\<And>i b body s r. f i b body s = Some r \<Longrightarrow> b \<noteq> \<infinity>"
    and eq: "(if enat i < b then f (Suc i) b body (body i s) else Some s) = Some r"
  show "b \<noteq> \<infinity>"
  proof (cases "enat i < b")
    case True
    with eq ih show ?thesis by simp
  next
    case False
    then show ?thesis by (cases b) auto
  qed
qed

lemma for_loop_ext_infinite: "for_loop_ext i \<infinity> body s = None"
  using for_loop_ext_infinite_aux [of i \<infinity> body s] by (cases "for_loop_ext i \<infinity> body s") auto

lemma for_loop_invariant:
  assumes init: "P i s"
    and step: "\<And>j t. i \<le> j \<Longrightarrow> j < b \<Longrightarrow> P j t \<Longrightarrow> P (Suc j) (body j t)"
    and le: "i \<le> b"
  shows "P b (for_loop i b body s)"
proof -
  have "i \<le> k \<Longrightarrow> k \<le> b \<Longrightarrow> P k (for_loop i k body s)" for k
  proof (induction k)
    case 0
    with init show ?case by (simp add: for_loop_done)
  next
    case (Suc k)
    show ?case
    proof (cases "i = Suc k")
      case True
      with init show ?thesis by (simp add: for_loop_done)
    next
      case False
      with Suc.prems have ik: "i \<le> k" and kb: "k < b" by simp_all
      with Suc.IH have "P k (for_loop i k body s)" by simp
      with ik kb have "P (Suc k) (body k (for_loop i k body s))" by (rule step)
      with ik show ?thesis by (simp add: for_loop_Suc_end)
    qed
  qed
  with le show ?thesis by simp
qed

section \<open>Single exponential smoothing: the guards\<close>

lemma expSmooth_absent_or_single:
  "expSmooth None alpha = []" "expSmooth (Some [x]) alpha = []"
  by (simp_all add: expSmooth_def)

text \<open>
  C1, on the empty array. The claim is that \<^verbatim>\<open>expSmooth\<close> returns the empty sequence
  for an absent, an empty and a one-element array, whatever \<open>alpha\<close>. The guard of line 34
  tests \<^verbatim>\<open>data.length === 1\<close> only, so an empty array passes it: with \<open>alpha = 1/2\<close> the
  function stores \<^verbatim>\<open>smoothed[0] = 0\<close> and \<^verbatim>\<open>smoothed[1] = data[0]\<close>, which is
  \<^verbatim>\<open>undefined\<close>, and returns these two elements.
\<close>

theorem expSmooth_empty_data_not_empty:
  "expSmooth (Some []) (Num (1/2)) = [Num 0, Undefined]"
  by (simp add: expSmooth_def jge_def aset_def aget_def for_loop_done)

section \<open>Properties of arrays\<close>

lemma aget_in: "i < length xs \<Longrightarrow> aget xs i = xs ! i"
  by (simp add: aget_def)

lemma aset_end: "aset xs (length xs) v = xs @ [v]"
  by (simp add: aset_def)

lemma length_aset_ge: "length xs \<le> length (aset xs i v)"
  by (simp add: aset_def)

section \<open>Single exponential smoothing: the recurrence\<close>

lemma expSmooth_inv_step:
  assumes inv: "expSmooth_inv d alpha k sm" and "2 \<le> k" and "k < length d"
  shows "expSmooth_inv d alpha (Suc k) (expSmooth_body d alpha k sm)"
proof -
  from inv have len: "length sm = k" by (simp add: expSmooth_inv_def)
  define v where "v = jadd (jmul alpha (d ! (k - 1))) (jmul (jsub (Num 1) alpha) (sm ! (k - 1)))"
  from assms len have body: "expSmooth_body d alpha k sm = sm @ [v]"
    by (simp add: expSmooth_body_def aget_in v_def aset_def)
  have old: "(sm @ [v]) ! j = sm ! j" if "j < k" for j
    using that len by (simp add: nth_append)
  have new: "(sm @ [v]) ! k = v"
    using len by (simp add: nth_append)
  have l: "length (sm @ [v]) = Suc k" using len by simp
  have z: "(sm @ [v]) ! 0 = Num 0" using inv assms(2) old [of 0] by (simp add: expSmooth_inv_def)
  have o: "(sm @ [v]) ! 1 = d ! 0" using inv assms(2) old [of 1] by (simp add: expSmooth_inv_def)
  have r: "(sm @ [v]) ! j = jadd (jmul alpha (d ! (j - 1))) (jmul (jsub (Num 1) alpha) ((sm @ [v]) ! (j - 1)))"
    if "2 \<le> j" "j < Suc k" for j
  proof (cases "j = k")
    case True
    with that old [of "k - 1"] new show ?thesis by (simp add: v_def)
  next
    case False
    with that have "j < k" by simp
    with that inv old [of j] old [of "j - 1"] show ?thesis by (simp add: expSmooth_inv_def)
  qed
  show ?thesis
    unfolding body expSmooth_inv_def using l z o r by blast
qed

lemma expSmooth_inv_result:
  assumes "2 \<le> length d" and "0 < a" and "a < 1"
  shows "expSmooth_inv d (Num a) (length d) (expSmooth (Some d) (Num a))"
proof -
  have start: "expSmooth_inv d (Num a) 2 [Num 0, d ! 0]"
    by (auto simp: expSmooth_inv_def)
  from assms have "aget d 0 = d ! 0" by (cases d) (simp_all add: aget_def)
  with assms have "expSmooth (Some d) (Num a) = for_loop 2 (length d) (expSmooth_body d (Num a)) [Num 0, d ! 0]"
    by (simp add: expSmooth_def jge_def aset_def)
  moreover have "expSmooth_inv d (Num a) (length d) (for_loop 2 (length d) (expSmooth_body d (Num a)) [Num 0, d ! 0])"
    using start _ assms(1)
  proof (rule for_loop_invariant)
    fix j t assume "2 \<le> j" "j < length d" "expSmooth_inv d (Num a) j t"
    then show "expSmooth_inv d (Num a) (Suc j) (expSmooth_body d (Num a) j t)"
      by (simp add: expSmooth_inv_step)
  qed
  ultimately show ?thesis by simp
qed

text \<open>
  C5. For an array of at least two elements and \<open>alpha\<close> strictly between 0 and 1,
  \<^verbatim>\<open>expSmooth\<close> returns an array of the length of the data, whose element 0 is 0,
  whose element 1 is \<^verbatim>\<open>data[0]\<close>, and whose element \<open>i\<close>, from 2 on, is
  \<^verbatim>\<open>alpha*data[i-1] + (1-alpha)*smoothed[i-1]\<close>.
\<close>

theorem expSmooth_recurrence:
  assumes "2 \<le> length d" and "0 < a" and "a < 1"
  shows "length (expSmooth (Some d) (Num a)) = length d \<and>
         expSmooth (Some d) (Num a) ! 0 = Num 0 \<and>
         expSmooth (Some d) (Num a) ! 1 = d ! 0 \<and>
         (\<forall>i. 2 \<le> i \<and> i < length d \<longrightarrow>
            expSmooth (Some d) (Num a) ! i =
              jadd (jmul (Num a) (d ! (i - 1)))
                   (jmul (jsub (Num 1) (Num a)) (expSmooth (Some d) (Num a) ! (i - 1))))"
  using expSmooth_inv_result [OF assms] by (simp add: expSmooth_inv_def)

theorem expSmooth_recurrence_witness:
  "length (expSmooth (Some [Num 6, Num 4, Num 8]) (Num (1/2))) = 3 \<and>
   expSmooth (Some [Num 6, Num 4, Num 8]) (Num (1/2)) ! 0 = Num 0 \<and>
   expSmooth (Some [Num 6, Num 4, Num 8]) (Num (1/2)) ! 1 = Num 6 \<and>
   expSmooth (Some [Num 6, Num 4, Num 8]) (Num (1/2)) ! 2 = Num 5"
proof -
  have r: "expSmooth (Some [Num 6, Num 4, Num 8]) (Num (1/2)) ! 2 =
      jadd (jmul (Num (1/2)) ([Num 6, Num 4, Num 8] ! (2 - 1)))
           (jmul (jsub (Num 1) (Num (1/2))) (expSmooth (Some [Num 6, Num 4, Num 8]) (Num (1/2)) ! (2 - 1)))"
    using expSmooth_recurrence [of "[Num 6, Num 4, Num 8]" "1/2"] by simp
  show ?thesis
    using expSmooth_recurrence [of "[Num 6, Num 4, Num 8]" "1/2"] 
    by (simp add: r jsub_def)
qed

section \<open>Parameter bounds of single and double smoothing\<close>

lemma doubleExpSmooth_body_length:
  "2 \<le> length (fst st) \<Longrightarrow> 2 \<le> length (fst (doubleExpSmooth_body d alpha gamma i st))"
  using length_aset_ge [of "fst st" i]
  by (simp add: doubleExpSmooth_body_def Let_def) (meson le_trans length_aset_ge)

lemma doubleExpSmooth_accepts:
  assumes "2 \<le> length d" and "0 \<le> a" "a \<le> 1" and "0 \<le> g" "g \<le> 1"
  shows "2 \<le> length (doubleExpSmooth (Some d) (Num a) (Num g))"
proof -
  let ?st = "([Num 0, aget d 0], [Num 0, jsub (aget d 1) (aget d 0)])"
  have "2 \<le> length (fst (for_loop 2 (length d) (doubleExpSmooth_body d (Num a) (Num g)) ?st))"
    using _ _ assms(1)
    by (rule for_loop_invariant [where P = "\<lambda>k st. 2 \<le> length (fst st)"])
       (simp_all add: doubleExpSmooth_body_length)
  with assms show ?thesis
    by (simp add: doubleExpSmooth_def jgt_def aset_def)
qed

lemma expSmooth_rejects_boundary: "a \<le> 0 \<or> 1 \<le> a \<Longrightarrow> expSmooth data (Num a) = []"
  by (auto simp: expSmooth_def jge_def split: option.splits)

text \<open>
  C7. On every array of at least two elements, \<^verbatim>\<open>doubleExpSmooth\<close> accepts the
  boundary values 0 and 1 for \<open>alpha\<close> and for \<open>gamma\<close> and returns a non-empty array,
  while \<^verbatim>\<open>expSmooth\<close> with \<open>alpha\<close> at the same boundary value returns the empty array.
\<close>

theorem smoothing_bounds_asymmetry:
  assumes "2 \<le> length d" and "a = 0 \<or> a = 1" and "g = 0 \<or> g = 1"
  shows "doubleExpSmooth (Some d) (Num a) (Num g) \<noteq> [] \<and> expSmooth (Some d) (Num a) = []"
proof -
  from assms have "2 \<le> length (doubleExpSmooth (Some d) (Num a) (Num g))"
    by (intro doubleExpSmooth_accepts) auto
  moreover from assms have "expSmooth (Some d) (Num a) = []"
    by (intro expSmooth_rejects_boundary) auto
  ultimately show ?thesis by auto
qed

theorem smoothing_bounds_asymmetry_witness:
  "doubleExpSmooth (Some [Num 1, Num 2, Num 3]) (Num 0) (Num 1) \<noteq> [] \<and>
   expSmooth (Some [Num 1, Num 2, Num 3]) (Num 0) = []"
  using smoothing_bounds_asymmetry [of "[Num 1, Num 2, Num 3]" 0 1] by simp


section \<open>Error metrics: sentinel and sums\<close>

lemma sq_diff_swap: "jmul (jsub x y) (jsub x y) = jmul (jsub y x) (jsub y x)"
  by (cases x; cases y) (simp_all add: jsub_def inf_of_sign_def algebra_simps)

text \<open>
  C10. \<^verbatim>\<open>sumSqError\<close> returns the same value when its two arguments are exchanged,
  for every pair of arguments, valid or not.
\<close>

theorem sumSqError_symmetric: "sumSqError p a = sumSqError a p"
proof -
  have "(\<lambda>i sum. let error = jsub (aget P i) (aget A i) in jadd sum (jmul error error)) =
        (\<lambda>i sum. let error = jsub (aget A i) (aget P i) in jadd sum (jmul error error))" for P A
    by (simp add: Let_def sq_diff_swap [of "aget P _" "aget A _"])
  then show ?thesis
    by (auto simp: sumSqError_def split: option.splits)
qed


theorem sumSqError_symmetric_witness:
  "sumSqError (Some [Num 3, Num 5]) (Some [Num 1, NaN]) = sumSqError (Some [Num 1, NaN]) (Some [Num 3, Num 5])"
  by (rule sumSqError_symmetric)

lemma sq_like_square: "sq_like (jmul e e)"
  by (cases e) (simp_all add: sq_like_def)

lemma sq_like_add: "sq_like x \<Longrightarrow> sq_like y \<Longrightarrow> sq_like (jadd x y)"
  by (cases x; cases y) (simp_all add: sq_like_def)

lemma sq_like_div: "sq_like x \<Longrightarrow> 0 < r \<Longrightarrow> sq_like (jdiv x (Num r))"
  by (cases x) (simp_all add: sq_like_def)

lemma sq_like_not_minus_one: "sq_like x \<Longrightarrow> x \<noteq> Num (- 1)"
  by (auto simp: sq_like_def)

lemma sumSqError_loop:
  assumes "length P = length A"
  shows "for_loop 0 (length P)
           (\<lambda>i sum. let error = jsub (aget P i) (aget A i) in jadd sum (jmul error error))
           (Num 0) = sq_error_sum P A
         \<and> sq_like (sq_error_sum P A)"
proof -
  let ?f = "\<lambda>i. jmul (jsub (P ! i) (A ! i)) (jsub (P ! i) (A ! i))"
  let ?body = "\<lambda>i sum. let error = jsub (aget P i) (aget A i) in jadd sum (jmul error error)"
  let ?I = "\<lambda>k s. s = foldl jadd (Num 0) (map ?f [0..<k]) \<and> sq_like s"
  have "?I (length P) (for_loop 0 (length P) ?body (Num 0))"
  proof (rule for_loop_invariant [where P = ?I])
    show "?I 0 (Num 0)" by (simp add: sq_like_def)
  next
    fix j t assume "j < length P" and inv: "?I j t"
    with assms have b: "?body j t = jadd t (?f j)" by (simp add: aget_in Let_def)
    from inv have "sq_like t" by blast
    then have "sq_like (jadd t (?f j))" by (intro sq_like_add sq_like_square)
    with inv b show "?I (Suc j) (?body j t)" by simp
  qed simp
  then show ?thesis by (auto simp: sq_error_sum_def)
qed

lemma sumSqError_valid:
  assumes "P \<noteq> []" and "length P = length A"
  shows "sumSqError (Some P) (Some A) = sq_error_sum P A"
  using assms sumSqError_loop [OF assms(2)] by (cases A) (auto simp: sumSqError_def)

lemma mse_valid:
  assumes "P \<noteq> []" and "length P = length A"
  shows "mse (Some P) (Some A) = jdiv (sumSqError (Some P) (Some A)) (Num (real (length P)))"
  using assms by (cases A) (auto simp: mse_def)

lemma sumSqError_invalid: "invalid_pair p a \<Longrightarrow> sumSqError p a = Num (- 1)"
  by (auto simp: invalid_pair_def sumSqError_def split: option.splits)

lemma mse_invalid: "invalid_pair p a \<Longrightarrow> mse p a = Num (- 1)"
  by (auto simp: invalid_pair_def mse_def split: option.splits)

lemma valid_pairE:
  assumes "\<not> invalid_pair p a"
  obtains P A where "p = Some P" "a = Some A" "P \<noteq> []" "length P = length A" "A \<noteq> []"
  using assms by (auto simp: invalid_pair_def split: option.splits)

text \<open>
  C9. \<^verbatim>\<open>sumSqError\<close> and \<^verbatim>\<open>mse\<close> return \<open>-1\<close> exactly when one of the two
  sequences is absent or empty or the lengths differ; otherwise \<^verbatim>\<open>sumSqError\<close> returns
  the sum of the squared differences and \<^verbatim>\<open>mse\<close> returns that sum divided by the common
  length.
\<close>

theorem error_metrics_spec:
  "(sumSqError p a = Num (- 1) \<longleftrightarrow> invalid_pair p a) \<and>
   (mse p a = Num (- 1) \<longleftrightarrow> invalid_pair p a) \<and>
   (\<forall>P A. p = Some P \<and> a = Some A \<and> \<not> invalid_pair p a \<longrightarrow>
      sumSqError p a = sq_error_sum P A \<and>
      mse p a = jdiv (sumSqError p a) (Num (real (length P))))"
proof (cases "invalid_pair p a")
  case True
  then show ?thesis by (simp add: sumSqError_invalid mse_invalid)
next
  case False
  then obtain P A where pa: "p = Some P" "a = Some A" "P \<noteq> []" "length P = length A" "A \<noteq> []"
    by (rule valid_pairE)
  have s: "sumSqError p a = sq_error_sum P A" using pa by (simp add: sumSqError_valid)
  have m: "mse p a = jdiv (sumSqError p a) (Num (real (length P)))" using pa by (simp add: mse_valid)
  have l: "sq_like (sq_error_sum P A)" using sumSqError_loop [OF pa(4)] by simp
  from pa have "0 < real (length P)" by simp
  with l have "sq_like (jdiv (sq_error_sum P A) (Num (real (length P))))" by (rule sq_like_div)
  with l s m False pa show ?thesis by (auto dest: sq_like_not_minus_one)
qed

theorem error_metrics_spec_witness:
  "sumSqError (Some [Num 3, Num 5]) (Some [Num 1, Num 6]) = Num 5 \<and>
   mse (Some [Num 3, Num 5]) (Some [Num 1, Num 6]) = Num (5 / 2) \<and>
   sumSqError (Some [Num 3, Num 5]) (Some [Num 1]) = Num (- 1) \<and>
   mse (Some [Num 3, Num 5]) None = Num (- 1)"
proof -
  have v: "\<not> invalid_pair (Some [Num 3, Num 5]) (Some [Num 1, Num 6])"
    by (simp add: invalid_pair_def)
  have i1: "invalid_pair (Some [Num 3, Num 5]) (Some [Num 1])"
    and i2: "invalid_pair (Some [Num 3, Num 5]) None"
    by (simp_all add: invalid_pair_def)
  have u: "[0..<2] = [0, 1]" by (simp add: upt_rec)
  from v error_metrics_spec [of "Some [Num 3, Num 5]" "Some [Num 1, Num 6]"]
  have "sumSqError (Some [Num 3, Num 5]) (Some [Num 1, Num 6]) = Num 5 \<and>
        mse (Some [Num 3, Num 5]) (Some [Num 1, Num 6]) = Num (5 / 2)"
    by (simp add: sq_error_sum_def jsub_def u)
  moreover from i1 error_metrics_spec [of "Some [Num 3, Num 5]" "Some [Num 1]"]
  have "sumSqError (Some [Num 3, Num 5]) (Some [Num 1]) = Num (- 1)" by simp
  moreover from i2 error_metrics_spec [of "Some [Num 3, Num 5]" None]
  have "mse (Some [Num 3, Num 5]) None = Num (- 1)" by simp
  ultimately show ?thesis by simp
qed

section \<open>Holt-Winters: the initial trend\<close>

lemma scale_eq_div: "jmul (jdiv (Num 1) (Num (real s))) x = jdiv x (Num (real s))"
  by (cases x; cases "s = 0") (simp_all add: inf_of_sign_def)

lemma initial_trend_loop:
  assumes "2 * s \<le> length d"
  shows "initial_trend d s =
         jdiv (foldl jadd (Num 0)
                 (map (\<lambda>i. jdiv (jsub (d ! (i + s)) (d ! i)) (Num (real s))) [0..<s]))
              (Num (real s))"
proof -
  let ?f = "\<lambda>i. jdiv (jsub (d ! (i + s)) (d ! i)) (Num (real s))"
  let ?body = "\<lambda>i sum. jadd sum (jdiv (jsub (aget d (i + s)) (aget d i)) (Num (real s)))"
  let ?I = "\<lambda>k t. t = foldl jadd (Num 0) (map ?f [0..<k])"
  have "?I s (for_loop 0 s ?body (Num 0))"
  proof (rule for_loop_invariant [where P = ?I])
    show "?I 0 (Num 0)" by simp
  next
    fix j t assume "j < s" and inv: "?I j t"
    with assms have "?body j t = jadd t (?f j)" by (simp add: aget_in)
    with inv show "?I (Suc j) (?body j t)" by simp
  qed simp
  then show ?thesis by (simp add: initial_trend_def)
qed

text \<open>
  C4. When \<open>2 * seasonLength\<close> is at most the length of the data, the initial trend is
  \<^verbatim>\<open>(1/seasonLength)\<close> times the sum, over the first \<^verbatim>\<open>seasonLength\<close> positions, of
  \<^verbatim>\<open>(data[i+seasonLength] - data[i]) / seasonLength\<close>: each difference is divided by
  \<^verbatim>\<open>seasonLength\<close> and so is their sum.
\<close>

theorem initial_trend_formula:
  assumes "2 * s \<le> length d"
  shows "initial_trend d s = initial_trend_spec d s"
proof -
  have "initial_trend d s =
        jdiv (foldl jadd (Num 0)
                (map (\<lambda>i. jdiv (jsub (d ! (i + s)) (d ! i)) (Num (real s))) [0..<s]))
             (Num (real s))"
    using assms by (rule initial_trend_loop)
  also have "\<dots> = initial_trend_spec d s"
    by (simp only: initial_trend_spec_def scale_eq_div)
  finally show ?thesis .
qed

theorem initial_trend_formula_witness:
  "initial_trend [Num 1, Num 2, Num 5, Num 8] 2 = Num (5 / 2) \<and>
   initial_trend_spec [Num 1, Num 2, Num 5, Num 8] 2 = Num (5 / 2)"
proof -
  have u: "[0..<2] = [0, 1]" by (simp add: upt_rec)
  have "initial_trend_spec [Num 1, Num 2, Num 5, Num 8] 2 = Num (5 / 2)"
    by (simp add: initial_trend_spec_def u jsub_def)
  with initial_trend_formula [of 2 "[Num 1, Num 2, Num 5, Num 8]"] show ?thesis by simp
qed


text \<open>On finite data and a positive season length this is the formula over the reals.\<close>

lemma foldl_jadd_Num: "foldl jadd (Num x) (map (\<lambda>i. Num (f i)) [0..<k]) = Num (x + (\<Sum>i<k. f i))"
  by (induction k) simp_all

lemma initial_trend_real:
  assumes "0 < s" and "2 * s \<le> length xs"
  shows "initial_trend (map Num xs) s =
         Num ((1 / real s) * (\<Sum>i<s. (xs ! (i + s) - xs ! i) / real s))"
proof -
  have m: "map (\<lambda>i. jdiv (jsub (map Num xs ! (i + s)) (map Num xs ! i)) (Num (real s))) [0..<s] =
        map (\<lambda>i. Num ((xs ! (i + s) - xs ! i) / real s)) [0..<s]"
    using assms by (auto simp: jsub_def)
  have "initial_trend (map Num xs) s = jdiv (foldl jadd (Num 0)
      (map (\<lambda>i. Num ((xs ! (i + s) - xs ! i) / real s)) [0..<s])) (Num (real s))"
    using assms(2) initial_trend_loop [of s "map Num xs"] by (simp only: m length_map)
  also have "\<dots> = Num ((\<Sum>i<s. (xs ! (i + s) - xs ! i) / real s) / real s)"
    using assms(1) by (simp add: foldl_jadd_Num)
  finally show ?thesis by simp
qed

section \<open>Holt-Winters: validation, initial phases and the two main loops\<close>

lemma hw_init_zero: "hw_init d 0 = None"
  by (simp add: hw_init_def num_seasons_def seasonal_averages_def for_loop_ext_infinite Let_def)

lemma hw_init_pos: "0 < s \<Longrightarrow> \<exists>v. hw_init d s = Some v"
  by (simp add: hw_init_def num_seasons_def seasonal_averages_def for_loop_ext_finite Let_def)

lemma holtWinters_rejected: "hw_rejected data alpha beta gamma \<Longrightarrow>
    holtWinters data alpha beta gamma s np = Some []"
  by (auto simp: hw_rejected_def outside_unit_def holtWinters_def Let_def split: option.splits)

lemma holtWintersPartitioned_rejected: "hw_rejected data alpha beta gamma \<Longrightarrow>
    holtWintersPartitioned data alpha beta gamma s np = Some EMPTY_PARTITION"
  by (auto simp: hw_rejected_def outside_unit_def holtWintersPartitioned_def Let_def split: option.splits)

lemma holtWinters_accepted:
  assumes "\<not> hw_rejected (Some d) alpha beta gamma"
  shows "holtWinters (Some d) alpha beta gamma s np =
         map_option (\<lambda>v. snd (for_loop 0 (nat (int (length d) + np))
                                (holtWinters_body d alpha beta gamma s) (v, [])))
           (hw_init d s)"
  using assms
  by (auto simp: hw_rejected_def outside_unit_def holtWinters_def Let_def split: option.splits)

lemma holtWintersPartitioned_accepted:
  assumes "\<not> hw_rejected (Some d) alpha beta gamma"
  shows "holtWintersPartitioned (Some d) alpha beta gamma s np =
         map_option (\<lambda>v. snd (for_loop 0 (nat (int (length d) + np))
                        (holtWintersPartitioned_body d alpha beta gamma s)
                        (v, \<lparr>smoothed = [], predictions = []\<rparr>)))
           (hw_init d s)"
  using assms
  by (auto simp: hw_rejected_def outside_unit_def holtWintersPartitioned_def Let_def split: option.splits)

lemma hw_sim_step:
  assumes "hw_sim (length d) k st st'" and "0 < length d"
  shows "hw_sim (length d) (Suc k) (holtWinters_body d alpha beta gamma s k st)
           (holtWintersPartitioned_body d alpha beta gamma s k st')"
proof -
  from assms have v: "fst st' = fst st"
    and cat: "snd st = smoothed (snd st') @ predictions (snd st')"
    and ls: "length (smoothed (snd st')) = min k (length d)"
    and lp: "length (predictions (snd st')) = k - length d"
    by (simp_all add: hw_sim_def)
  show ?thesis
  proof (cases "k < length d")
    case True
    with lp have "predictions (snd st') = []" by simp
    with True v cat ls assms(2) show ?thesis
      by (simp add: hw_sim_def holtWinters_body_def holtWintersPartitioned_body_def
          Let_def push_def min_def)
  next
    case False
    with v cat ls lp assms(2) show ?thesis
      by (simp add: hw_sim_def holtWinters_body_def holtWintersPartitioned_body_def
          Let_def push_def min_def Suc_diff_le)
  qed
qed

lemma hw_sim_loops:
  assumes "0 < length d"
  shows "hw_sim (length d) k
           (for_loop 0 k (holtWinters_body d alpha beta gamma s) (v, []))
           (for_loop 0 k (holtWintersPartitioned_body d alpha beta gamma s)
              (v, \<lparr>smoothed = [], predictions = []\<rparr>))"
proof (induction k)
  case 0
  show ?case by (simp add: for_loop_done hw_sim_def)
next
  case (Suc k)
  with assms show ?case by (simp add: for_loop_Suc_end hw_sim_step)
qed

text \<open>
  C2. For all arguments, \<^verbatim>\<open>smoothed\<close> followed by \<^verbatim>\<open>predictions\<close> of
  \<^verbatim>\<open>holtWintersPartitioned\<close> is the sequence that \<^verbatim>\<open>holtWinters\<close> returns on the same
  arguments (and the one call returns exactly when the other does).
\<close>

theorem holtWintersPartitioned_concat:
  "map_option (\<lambda>p. smoothed p @ predictions p)
     (holtWintersPartitioned data alpha beta gamma seasonLength numPredictions) =
   holtWinters data alpha beta gamma seasonLength numPredictions"
proof (cases "hw_rejected data alpha beta gamma")
  case True
  then show ?thesis
    by (simp add: holtWinters_rejected holtWintersPartitioned_rejected EMPTY_PARTITION_def)
next
  case False
  then obtain d where d: "data = Some d" and n3: "\<not> length d < 3"
    by (auto simp: hw_rejected_def split: option.splits)
  from n3 have n: "0 < length d" by (cases d) auto
  show ?thesis
  proof (cases "hw_init d seasonLength")
    case None
    with False d show ?thesis
      by (simp add: holtWinters_accepted holtWintersPartitioned_accepted)
  next
    case (Some v)
    from hw_sim_loops [OF n, of "nat (int (length d) + numPredictions)" alpha beta gamma seasonLength v]
    have "snd (for_loop 0 (nat (int (length d) + numPredictions)) (holtWinters_body d alpha beta gamma seasonLength) (v, [])) =
          smoothed (snd (for_loop 0 (nat (int (length d) + numPredictions))
             (holtWintersPartitioned_body d alpha beta gamma seasonLength)
             (v, \<lparr>smoothed = [], predictions = []\<rparr>))) @
          predictions (snd (for_loop 0 (nat (int (length d) + numPredictions))
             (holtWintersPartitioned_body d alpha beta gamma seasonLength)
             (v, \<lparr>smoothed = [], predictions = []\<rparr>)))"
      by (simp add: hw_sim_def)
    with False d Some show ?thesis
      by (simp add: holtWinters_accepted holtWintersPartitioned_accepted)
  qed
qed

theorem holtWintersPartitioned_concat_witness:
  "map_option (\<lambda>p. smoothed p @ predictions p)
     (holtWintersPartitioned (Some [Num 1, Num 2, Num 3, Num 4]) (Num (1/2)) (Num (1/2)) (Num (1/2)) 2 2) =
   holtWinters (Some [Num 1, Num 2, Num 3, Num 4]) (Num (1/2)) (Num (1/2)) (Num (1/2)) 2 2"
  by (rule holtWintersPartitioned_concat)

section \<open>Holt-Winters: lengths and rejection\<close>

lemma unit_accepted: "0 \<le> a \<Longrightarrow> a \<le> 1 \<Longrightarrow> \<not> outside_unit (Num a)"
  by (simp add: outside_unit_def jgt_def)

lemma hw_accepted:
  assumes "3 \<le> length d" and "\<not> outside_unit alpha" "\<not> outside_unit beta" "\<not> outside_unit gamma"
  shows "\<not> hw_rejected (Some d) alpha beta gamma"
  using assms by (simp add: hw_rejected_def)

lemma hw_results:
  assumes acc: "\<not> hw_rejected (Some d) alpha beta gamma" and init: "hw_init d s = Some v"
  shows "\<exists>out p.
           holtWinters (Some d) alpha beta gamma s np = Some out \<and>
           holtWintersPartitioned (Some d) alpha beta gamma s np = Some p \<and>
           out = snd (for_loop 0 (nat (int (length d) + np))
                        (holtWinters_body d alpha beta gamma s) (v, [])) \<and>
           out = smoothed p @ predictions p \<and>
           length (smoothed p) = min (nat (int (length d) + np)) (length d) \<and>
           length (predictions p) = nat (int (length d) + np) - length d"
proof -
  from acc have n: "0 < length d" by (cases d) (auto simp: hw_rejected_def)
  let ?k = "nat (int (length d) + np)"
  let ?st = "for_loop 0 ?k (holtWinters_body d alpha beta gamma s) (v, [])"
  let ?st' = "for_loop 0 ?k (holtWintersPartitioned_body d alpha beta gamma s)
                (v, \<lparr>smoothed = [], predictions = []\<rparr>)"
  have "hw_sim (length d) ?k ?st ?st'" using n by (rule hw_sim_loops)
  then have "snd ?st = smoothed (snd ?st') @ predictions (snd ?st')"
    and "length (smoothed (snd ?st')) = min ?k (length d)"
    and "length (predictions (snd ?st')) = ?k - length d"
    by (simp_all add: hw_sim_def)
  moreover have "holtWinters (Some d) alpha beta gamma s np = Some (snd ?st)"
    using acc init by (simp add: holtWinters_accepted)
  moreover have "holtWintersPartitioned (Some d) alpha beta gamma s np = Some (snd ?st')"
    using acc init by (simp add: holtWintersPartitioned_accepted)
  ultimately show ?thesis by simp
qed

text \<open>
  C6, as stated, at \<^verbatim>\<open>seasonLength = 0\<close>. The data [1, 2, 3] and the parameters 1/2 pass
  the guards of lines 122 to 130, but \<^verbatim>\<open>Math.floor(3/0)\<close> is \<^verbatim>\<open>Infinity\<close>, the loop of
  line 149 does not exit (the engine ends it with \<^verbatim>\<open>RangeError: Invalid array length\<close>),
  and neither function returns a sequence.
\<close>

theorem holtWinters_zero_seasonLength:
  "holtWinters (Some [Num 1, Num 2, Num 3]) (Num (1/2)) (Num (1/2)) (Num (1/2)) 0 1 = None \<and>
   holtWintersPartitioned (Some [Num 1, Num 2, Num 3]) (Num (1/2)) (Num (1/2)) (Num (1/2)) 0 1 = None"
  by (simp add: holtWinters_def holtWintersPartitioned_def jgt_def hw_init_zero)

text \<open>
  C6, amended. For data of length \<open>n\<close> at least 3, parameters in [0,1] and a positive
  \<^verbatim>\<open>seasonLength\<close> and \<^verbatim>\<open>numPredictions\<close> not negative, \<^verbatim>\<open>holtWinters\<close> returns a sequence of length
  \<open>n + numPredictions\<close>, and \<^verbatim>\<open>holtWintersPartitioned\<close> returns \<^verbatim>\<open>smoothed\<close> of length
  \<open>n\<close> and \<^verbatim>\<open>predictions\<close> of length \<^verbatim>\<open>numPredictions\<close>.
\<close>

theorem holtWinters_lengths:
  assumes "3 \<le> length d" and "0 \<le> a" "a \<le> 1" and "0 \<le> b" "b \<le> 1" and "0 \<le> g" "g \<le> 1"
    and "0 < seasonLength" and "0 \<le> numPredictions"
  shows "\<exists>out p.
           holtWinters (Some d) (Num a) (Num b) (Num g) seasonLength numPredictions = Some out \<and>
           int (length out) = int (length d) + numPredictions \<and>
           holtWintersPartitioned (Some d) (Num a) (Num b) (Num g) seasonLength numPredictions = Some p \<and>
           length (smoothed p) = length d \<and>
           int (length (predictions p)) = numPredictions"
proof -
  from assms have acc: "\<not> hw_rejected (Some d) (Num a) (Num b) (Num g)"
    by (intro hw_accepted unit_accepted)
  from assms(8) obtain v where "hw_init d seasonLength = Some v"
    using hw_init_pos by blast
  from hw_results [OF acc this, of numPredictions] obtain out p where
    "holtWinters (Some d) (Num a) (Num b) (Num g) seasonLength numPredictions = Some out"
    "holtWintersPartitioned (Some d) (Num a) (Num b) (Num g) seasonLength numPredictions = Some p"
    "out = smoothed p @ predictions p"
    "length (smoothed p) = min (nat (int (length d) + numPredictions)) (length d)"
    "length (predictions p) = nat (int (length d) + numPredictions) - length d"
    by blast
  moreover from assms(9) have "nat (int (length d) + numPredictions) = length d + nat numPredictions"
    by simp
  ultimately show ?thesis using assms(9) by auto
qed

theorem holtWinters_lengths_witness:
  "\<exists>out p.
     holtWinters (Some [Num 1, Num 2, Num 3, Num 4]) (Num 0) (Num (1/2)) (Num 1) 2 2 = Some out \<and>
     int (length out) = int (length [Num 1, Num 2, Num 3, Num 4]) + 2 \<and>
     holtWintersPartitioned (Some [Num 1, Num 2, Num 3, Num 4]) (Num 0) (Num (1/2)) (Num 1) 2 2 = Some p \<and>
     length (smoothed p) = length [Num 1, Num 2, Num 3, Num 4] \<and> int (length (predictions p)) = 2"
  by (rule holtWinters_lengths) simp_all




section \<open>Holt-Winters: the forecast\<close>

lemma hw_forecast_loop:
  assumes "0 < length d" and "length d \<le> k"
  shows "for_loop 0 k (holtWinters_body d alpha beta gamma s) (v, []) =
         (fst (for_loop 0 (length d) (holtWinters_body d alpha beta gamma s) (v, [])),
          snd (for_loop 0 (length d) (holtWinters_body d alpha beta gamma s) (v, [])) @
          map (\<lambda>i. hw_forecast (length d) s i
                 (fst (for_loop 0 (length d) (holtWinters_body d alpha beta gamma s) (v, []))))
            [length d..<k])"
  using assms(2)
proof (induction k rule: dec_induct)
  case base
  show ?case by simp
next
  case (step k)
  from assms(1) step(1) have "k \<noteq> 0" by (cases d) auto
  with step show ?case
    by (simp add: for_loop_Suc_end holtWinters_body_def Let_def push_def)
qed

lemma hw_in_sample_length:
  assumes "0 < length d"
  shows "length (snd (for_loop 0 (length d) (holtWinters_body d alpha beta gamma s) (v, []))) = length d"
  using hw_sim_loops [OF assms, of "length d" alpha beta gamma s v] by (simp add: hw_sim_def)

text \<open>
  C3. For data of length \<open>n\<close> at least 3, parameters in [0,1] and \<open>n \<le> i < n + numPredictions\<close>
  (so that \<^verbatim>\<open>numPredictions\<close> is positive):
  the output at position \<open>i\<close> is \<^verbatim>\<open>(smooth + m*trend) + seasonals[i % seasonLength]\<close> with
  \<open>m = i - n + 1\<close>, where \<^verbatim>\<open>smooth\<close>, \<^verbatim>\<open>trend\<close> and \<^verbatim>\<open>seasonals\<close> are the values
  left by the last in-sample step, and they stay the same at every later index. The same
  value is element \<open>i - n\<close> of \<^verbatim>\<open>predictions\<close> in the partitioned form. The bound
  \<open>2 * seasonLength \<le> n\<close> of the claim is not needed; at \<^verbatim>\<open>seasonLength = 0\<close> the function
  does not return, so there is no output.
\<close>

theorem holtWinters_forecast:
  assumes "3 \<le> length d" and "0 \<le> a" "a \<le> 1" and "0 \<le> b" "b \<le> 1" and "0 \<le> g" "g \<le> 1"
    and "length d \<le> i" and "int i < int (length d) + numPredictions"
  shows "if seasonLength = 0
         then holtWinters (Some d) (Num a) (Num b) (Num g) seasonLength numPredictions = None
         else (\<exists>v out p.
           hw_vars_after d (Num a) (Num b) (Num g) seasonLength (length d) = Some v \<and>
           (\<forall>k. length d \<le> k \<longrightarrow>
              hw_vars_after d (Num a) (Num b) (Num g) seasonLength k = Some v) \<and>
           holtWinters (Some d) (Num a) (Num b) (Num g) seasonLength numPredictions = Some out \<and>
           out ! i = jadd (jadd (smooth v) (jmul (Num (real (i - length d + 1))) (trend v)))
                          (aget (seasonals v) (i mod seasonLength)) \<and>
           holtWintersPartitioned (Some d) (Num a) (Num b) (Num g) seasonLength numPredictions = Some p \<and>
           predictions p ! (i - length d) = out ! i)"
proof (cases "seasonLength = 0")
  case True
  from assms have acc: "\<not> hw_rejected (Some d) (Num a) (Num b) (Num g)"
    by (intro hw_accepted unit_accepted)
  with True show ?thesis by (simp add: holtWinters_accepted hw_init_zero)
next
  case False
  from assms have acc: "\<not> hw_rejected (Some d) (Num a) (Num b) (Num g)"
    by (intro hw_accepted unit_accepted)
  from assms(1) have n: "0 < length d" by (cases d) auto
  from False obtain v0 where init: "hw_init d seasonLength = Some v0"
    using hw_init_pos [of seasonLength d] by auto
  let ?body = "holtWinters_body d (Num a) (Num b) (Num g) seasonLength"
  define v where "v = fst (for_loop 0 (length d) ?body (v0, []))"
  define pn where "pn = snd (for_loop 0 (length d) ?body (v0, []))"
  have loop: "for_loop 0 k ?body (v0, []) =
      (v, pn @ map (\<lambda>i. hw_forecast (length d) seasonLength i v) [length d..<k])"
    if "length d \<le> k" for k
    unfolding v_def pn_def using n that by (rule hw_forecast_loop)
  have len: "length pn = length d" unfolding pn_def using n by (rule hw_in_sample_length)
  from hw_results [OF acc init, of numPredictions] obtain out p where
    hw: "holtWinters (Some d) (Num a) (Num b) (Num g) seasonLength numPredictions = Some out"
    and hwp: "holtWintersPartitioned (Some d) (Num a) (Num b) (Num g) seasonLength numPredictions = Some p"
    and out: "out = snd (for_loop 0 (nat (int (length d) + numPredictions)) ?body (v0, []))"
    and cat: "out = smoothed p @ predictions p"
    and ls': "length (smoothed p) = min (nat (int (length d) + numPredictions)) (length d)"
    by blast
  from assms(8,9) have bound: "length d \<le> nat (int (length d) + numPredictions)"
    and below: "i < nat (int (length d) + numPredictions)" by simp_all
  from ls' bound have ls: "length (smoothed p) = length d" by simp
  have after: "hw_vars_after d (Num a) (Num b) (Num g) seasonLength k = Some v" if "length d \<le> k" for k
    using loop [OF that] init by (simp add: hw_vars_after_def)
  from out loop [OF bound]
  have "out = pn @ map (\<lambda>i. hw_forecast (length d) seasonLength i v)
                    [length d..<nat (int (length d) + numPredictions)]"
    by simp
  moreover from assms(8) below
  have "[length d..<nat (int (length d) + numPredictions)] ! (i - length d) = i" by simp
  ultimately have "out ! i = hw_forecast (length d) seasonLength i v"
    using len assms(8) below by (simp add: nth_append)
  then have val: "out ! i = jadd (jadd (smooth v) (jmul (Num (real (i - length d + 1))) (trend v)))
                          (aget (seasonals v) (i mod seasonLength))"
    by (simp add: hw_forecast_def)
  from cat ls assms(8) have "predictions p ! (i - length d) = out ! i"
    by (simp add: nth_append)
  with False after hw hwp val show ?thesis by auto
qed

theorem holtWinters_forecast_witness:
  "\<exists>v out p.
     hw_vars_after [Num 1, Num 2, Num 3, Num 4] (Num (1/2)) (Num (1/2)) (Num (1/2)) 2
       (length [Num 1, Num 2, Num 3, Num 4]) = Some v \<and>
     (\<forall>k. length [Num 1, Num 2, Num 3, Num 4] \<le> k \<longrightarrow>
        hw_vars_after [Num 1, Num 2, Num 3, Num 4] (Num (1/2)) (Num (1/2)) (Num (1/2)) 2 k = Some v) \<and>
     holtWinters (Some [Num 1, Num 2, Num 3, Num 4]) (Num (1/2)) (Num (1/2)) (Num (1/2)) 2 2 = Some out \<and>
     out ! 5 = jadd (jadd (smooth v) (jmul (Num (real (5 - length [Num 1, Num 2, Num 3, Num 4] + 1))) (trend v)))
                    (aget (seasonals v) (5 mod 2)) \<and>
     holtWintersPartitioned (Some [Num 1, Num 2, Num 3, Num 4]) (Num (1/2)) (Num (1/2)) (Num (1/2)) 2 2 = Some p \<and>
     predictions p ! (5 - length [Num 1, Num 2, Num 3, Num 4]) = out ! 5"
proof -
  have "if (2::nat) = 0
        then holtWinters (Some [Num 1, Num 2, Num 3, Num 4]) (Num (1/2)) (Num (1/2)) (Num (1/2)) 2 2 = None
        else (\<exists>v out p.
     hw_vars_after [Num 1, Num 2, Num 3, Num 4] (Num (1/2)) (Num (1/2)) (Num (1/2)) 2
       (length [Num 1, Num 2, Num 3, Num 4]) = Some v \<and>
     (\<forall>k. length [Num 1, Num 2, Num 3, Num 4] \<le> k \<longrightarrow>
        hw_vars_after [Num 1, Num 2, Num 3, Num 4] (Num (1/2)) (Num (1/2)) (Num (1/2)) 2 k = Some v) \<and>
     holtWinters (Some [Num 1, Num 2, Num 3, Num 4]) (Num (1/2)) (Num (1/2)) (Num (1/2)) 2 2 = Some out \<and>
     out ! 5 = jadd (jadd (smooth v) (jmul (Num (real (5 - length [Num 1, Num 2, Num 3, Num 4] + 1))) (trend v)))
                    (aget (seasonals v) (5 mod 2)) \<and>
     holtWintersPartitioned (Some [Num 1, Num 2, Num 3, Num 4]) (Num (1/2)) (Num (1/2)) (Num (1/2)) 2 2 = Some p \<and>
     predictions p ! (5 - length [Num 1, Num 2, Num 3, Num 4]) = out ! 5)"
    by (rule holtWinters_forecast) simp_all
  moreover have "(2::nat) \<noteq> 0" by simp
  ultimately show ?thesis by (simp only: if_False)
qed

text \<open>A run of the whole function, and the variables it leaves after the last sample.\<close>

lemma holtWinters_example:
  "holtWinters (Some [Num 1, Num 2, Num 3, Num 4]) (Num (1/2)) (Num (1/2)) (Num (1/2)) 2 2
   = Some [Num 1, Num 3, Num (31 / 8), Num (163 / 32), Num (585 / 128), Num (775 / 128)]"
  by code_simp

lemma hw_vars_after_example:
  "hw_vars_after [Num 1, Num 2, Num 3, Num 4] (Num (1/2)) (Num (1/2)) (Num (1/2)) 2 4
   = Some \<lparr>smooth = Num (249 / 64), trend = Num (123 / 128),
            seasonals = [Num (- (9 / 32)), Num (31 / 128)]\<rparr>"
  by code_simp

end
